theory Spec2Isabelle
  imports
    Complex_Main
    "HOL-Library.Multiset"
    "HOL-Library.Char_ord"
    "HOL-Library.List_Lexorder"
    "HOL-Library.Product_Lexorder"
begin

section \<open>The beacon-scoring pipeline of \<^verbatim>\<open>beacon_finder.py\<close>\<close>

text \<open>
  The script reads a proxy log, groups its rows into conversations, derives the time
  deltas of every conversation and ranks the conversations by a score built from three
  statistics of the deltas. The embedding follows the script line by line.

  Numbers. Timestamps are parsed with the format \<^verbatim>\<open>%Y-%m-%d-%H:%M:%S\<close>, so an instant
  is a whole number of seconds (\<^typ>\<open>int\<close>) and a time delta is a whole number of seconds
  too. Every float64 of the script is an exact \<^typ>\<open>real\<close> here: rounding is not
  modelled. The one place where the script can leave the finite numbers is the division
  of line 112, which pandas evaluates with IEEE rules (no exception); its result has the
  type \<open>npfloat\<close> below.
\<close>

subsection \<open>Data\<close>

text \<open>A row of the log, with the columns the script reads after line 47 (the other
  ten columns are dropped at line 59 without being read).\<close>

record log_row =
  timestamp :: int
  username :: string
  dest_ip :: string
  domain :: string

text \<open>A row of the grouped frame (lines 63-67): the two key columns
  \<^verbatim>\<open>src = 'username'\<close>, \<^verbatim>\<open>dst = 'domain'\<close> and the list of timestamps.\<close>

record group_row =
  g_src :: string
  g_dst :: string
  g_time :: "int list"

text \<open>A float64 produced by a numpy division: a finite number or one of the special
  values.\<close>

datatype npfloat = Finite real | PosInf | NegInf | NaN

text \<open>A row of the final frame (line 122): the columns
  \<^verbatim>\<open>[score, count, src, dst, dlt]\<close>.\<close>

record row =
  Score :: npfloat
  Count :: nat
  src :: string
  dst :: string
  dlt :: "int list"

text \<open>The exceptions that the Python operations of the script can raise.\<close>

datatype py_error = IndexError | ZeroDivisionError | ValueError

definition bind_err :: "py_error + 'a \<Rightarrow> ('a \<Rightarrow> py_error + 'b) \<Rightarrow> py_error + 'b" where
  "bind_err m f = (case m of Inl e \<Rightarrow> Inl e | Inr x \<Rightarrow> f x)"

fun map_err :: "('a \<Rightarrow> py_error + 'b) \<Rightarrow> 'a list \<Rightarrow> py_error + 'b list" where
  "map_err f [] = Inr []"
| "map_err f (x # xs) =
     bind_err (f x) (\<lambda>y. bind_err (map_err f xs) (\<lambda>ys. Inr (y # ys)))"

subsection \<open>Aggregation (lines 51-81)\<close>

text \<open>Line 51: rows whose \<^verbatim>\<open>username\<close> or \<^verbatim>\<open>dest_ip\<close> is \<^verbatim>\<open>'-'\<close> are removed.\<close>

definition sentinel_filter :: "log_row list \<Rightarrow> log_row list" where
  "sentinel_filter df = filter (\<lambda>r. username r \<noteq> ''-'' \<and> dest_ip r \<noteq> ''-'') df"

text \<open>Lines 54-67: \<^verbatim>\<open>df.groupby([src, dst]).agg(list)\<close> with \<^verbatim>\<open>src = 'username'\<close> and
  \<^verbatim>\<open>dst = 'domain'\<close>. One row per distinct key, the keys in ascending order (the default
  \<^verbatim>\<open>sort=True\<close> of groupby), every row with the timestamps of its key in log order.\<close>

definition conv_key :: "log_row \<Rightarrow> string \<times> string" where
  "conv_key r = (username r, domain r)"

definition groupby_agg :: "log_row list \<Rightarrow> group_row list" where
  "groupby_agg df =
     map (\<lambda>k. \<lparr>g_src = fst k, g_dst = snd k,
               g_time = map timestamp (filter (\<lambda>r. conv_key r = k) df)\<rparr>)
         (sort (remdups (map conv_key df)))"

text \<open>Line 72: \<^verbatim>\<open>Count\<close> is the length of the timestamp list. Line 79: only the rows with
  \<^verbatim>\<open>Count > 36\<close> stay.\<close>

definition g_count :: "group_row \<Rightarrow> nat" where
  "g_count g = length (g_time g)"

definition short_session_filter :: "group_row list \<Rightarrow> group_row list" where
  "short_session_filter df = filter (\<lambda>g. g_count g > 36) df"

text \<open>The frame after line 81: the conversations that are analysed.\<close>

definition conversations :: "log_row list \<Rightarrow> group_row list" where
  "conversations df = short_session_filter (groupby_agg (sentinel_filter df))"

subsection \<open>Time deltas and span (lines 90, 104)\<close>

text \<open>Line 90: \<^verbatim>\<open>pd.Series(x).diff().dropna().tolist()\<close>. The first entry of the diff
  is the missing value and is dropped.\<close>

fun Deltas :: "int list \<Rightarrow> int list" where
  "Deltas (x # y # ys) = (y - x) # Deltas (y # ys)"
| "Deltas _ = []"

text \<open>Line 104: \<^verbatim>\<open>(x[-1] - x[0]).total_seconds()\<close>; indexing an empty list raises.\<close>

definition ConnDiv :: "int list \<Rightarrow> py_error + real" where
  "ConnDiv x = (if x = [] then Inl IndexError else Inr (real_of_int (last x - hd x)))"

subsection \<open>Statistics (lines 94-102)\<close>

text \<open>Modelled from the spec: \<^verbatim>\<open>np.percentile\<close> is numpy's, not part of the repository.
  The spec pins it to linear interpolation between order statistics: the rank is
  \<open>q / 100 * (n - 1)\<close>, zero-based, and the value is interpolated between the two sorted
  entries that bracket the rank. With \<open>k = q * (n - 1)\<close> the floor of the rank is
  \<open>k div 100\<close> and its fractional part is \<open>(k mod 100) / 100\<close>. The spec gives no value
  for an empty series (the pipeline never builds one); the model raises there, as it
  does for a percentage above 100, which numpy refuses.\<close>

definition lerp_at :: "real list \<Rightarrow> nat \<Rightarrow> real" where
  "lerp_at s k =
     (let previous = k div 100;
          nxt = min (previous + 1) (length s - 1);
          gamma = real (k mod 100) / 100
      in s ! previous + (s ! nxt - s ! previous) * gamma)"

definition percentile :: "real list \<Rightarrow> nat \<Rightarrow> py_error + real" where
  "percentile a q =
     (if q > 100 then Inl ValueError
      else if a = [] then Inl IndexError
      else Inr (lerp_at (sort a) (q * (length a - 1))))"

text \<open>Modelled from the spec: \<^verbatim>\<open>np.median\<close> is numpy's. The median of a series is its
  middle order statistic, or the mean of the two middle ones when the length is even.\<close>

definition median :: "real list \<Rightarrow> py_error + real" where
  "median a =
     (if a = [] then Inl IndexError
      else let s = sort a; n = length s
           in if odd n then Inr (s ! (n div 2))
              else Inr ((s ! (n div 2 - 1) + s ! (n div 2)) / 2))"

definition seconds :: "int list \<Rightarrow> real list" where
  "seconds x = map real_of_int x"

definition Low :: "int list \<Rightarrow> py_error + real" where
  "Low x = percentile (seconds x) 20"

definition Mid :: "int list \<Rightarrow> py_error + real" where
  "Mid x = percentile (seconds x) 50"

definition High :: "int list \<Rightarrow> py_error + real" where
  "High x = percentile (seconds x) 80"

definition BowleyNum :: "real \<Rightarrow> real \<Rightarrow> real \<Rightarrow> real" where
  "BowleyNum low mid high = low + high - 2 * mid"

definition BowleyDen :: "real \<Rightarrow> real \<Rightarrow> real" where
  "BowleyDen low high = high - low"

text \<open>Line 99. The division is Python's, on the scalars of one row: it raises when the
  denominator is zero.\<close>

definition Skew :: "real \<Rightarrow> real \<Rightarrow> real \<Rightarrow> py_error + real" where
  "Skew low mid high =
     (if BowleyNum low mid high \<noteq> 0 \<and> mid \<noteq> low \<and> mid \<noteq> high
      then (if BowleyDen low high = 0 then Inl ZeroDivisionError
            else Inr (BowleyNum low mid high / BowleyDen low high))
      else Inr 0)"

text \<open>Line 102: the median of the absolute deviations from the median, in seconds.\<close>

definition Madm :: "int list \<Rightarrow> py_error + real" where
  "Madm x =
     bind_err (median (seconds x)) (\<lambda>m. median (map (\<lambda>y. \<bar>y - m\<bar>) (seconds x)))"

subsection \<open>Scores (lines 109-114)\<close>

definition SkewScore :: "real \<Rightarrow> real" where
  "SkewScore skew = 1 - \<bar>skew\<bar>"

text \<open>Lines 110-111.\<close>

definition MadmScore :: "real \<Rightarrow> real" where
  "MadmScore madm = (let x = 1 - madm / 30 in if x < 0 then 0 else x)"

text \<open>Line 112 divides two columns of the frame. pandas hands the division to numpy,
  which follows IEEE 754 and raises nothing: a positive number over zero is \<open>inf\<close>, a
  negative one \<open>-inf\<close>, zero over zero \<open>nan\<close>. The divisor is the \<^verbatim>\<open>total_seconds()\<close> of
  a time delta, so a zero divisor is the positive zero.\<close>

definition np_truediv :: "real \<Rightarrow> real \<Rightarrow> npfloat" where
  "np_truediv a b =
     (if b \<noteq> 0 then Finite (a / b)
      else if a > 0 then PosInf else if a < 0 then NegInf else NaN)"

text \<open>The comparison \<^verbatim>\<open>x > c\<close> of a float with a finite constant; it is false for
  \<open>nan\<close>.\<close>

fun np_gt :: "npfloat \<Rightarrow> real \<Rightarrow> bool" where
  "np_gt (Finite x) c = (x > c)"
| "np_gt PosInf c = True"
| "np_gt NegInf c = False"
| "np_gt NaN c = False"

text \<open>Lines 112-113.\<close>

definition ConnCountScore :: "nat \<Rightarrow> real \<Rightarrow> npfloat" where
  "ConnCountScore cnt connDiv =
     (let x = np_truediv (10 * real cnt) connDiv in if np_gt x 1 then Finite 1 else x)"

text \<open>Line 114. The two other summands are finite and the constants are positive, so
  a special value of the rate score is the value of the sum.\<close>

fun calc_Score :: "real \<Rightarrow> real \<Rightarrow> npfloat \<Rightarrow> npfloat" where
  "calc_Score skewScore madmScore (Finite connCountScore) =
     Finite ((((skewScore + madmScore + connCountScore) / 3) * 1000) / 1000)"
| "calc_Score skewScore madmScore x = x"

text \<open>The \<^verbatim>\<open>Skew\<close> column as a function of the \<^verbatim>\<open>Deltas\<close> column (lines 94-99).\<close>

definition Skew_of_deltas :: "int list \<Rightarrow> py_error + real" where
  "Skew_of_deltas d =
     bind_err (Low d) (\<lambda>low.
     bind_err (Mid d) (\<lambda>mid.
     bind_err (High d) (\<lambda>high. Skew low mid high)))"

text \<open>Lines 90-114 for one row of the frame. The script fills the frame column by
  column; every entry depends on its own row only, so the frame is the same when it is
  filled row by row. An exception in any entry ends the script.\<close>

definition score_row :: "group_row \<Rightarrow> py_error + row" where
  "score_row g =
     (let x = g_time g; d = Deltas x in
      bind_err (Skew_of_deltas d) (\<lambda>skew.
      bind_err (Madm d) (\<lambda>madm.
      bind_err (ConnDiv x) (\<lambda>connDiv.
        Inr \<lparr>Score = calc_Score (SkewScore skew) (MadmScore madm)
                       (ConnCountScore (g_count g) connDiv),
             Count = g_count g, src = g_src g, dst = g_dst g, dlt = d\<rparr>))))"

text \<open>The frame after line 114, before it is sorted. (When no conversation passes the
  filter of line 79 the frame has no rows. What pandas does when a column of a frame
  without rows is assigned is its own matter; the model keeps the empty frame. The
  properties below do not depend on that choice: each one assumes a frame that the script
  produced or a conversation that passed the filter, or is about one line alone.)\<close>

definition scored_frame :: "log_row list \<Rightarrow> py_error + row list" where
  "scored_frame df = map_err score_row (conversations df)"

subsection \<open>Ranking (lines 115-127)\<close>

text \<open>Line 115: \<^verbatim>\<open>df.sort_values(by='Score', ascending=False, inplace=True)\<close>. The call
  names no \<^verbatim>\<open>kind\<close>, so pandas sorts with its default, quicksort, which it documents as
  not stable. What the call promises is that the frame keeps its rows and that they come
  out in descending order of the score, missing values last. The order of rows with equal
  scores is decided inside the library, whose code is not part of the script. The model
  does not decide it: the sorted frame is a relation between the frame before and the
  frame after that admits every order of rows with equal scores, the one the library
  yields among them. The relation is used below as an assumption only.\<close>

fun ranks_before :: "npfloat \<Rightarrow> npfloat \<Rightarrow> bool" where
  "ranks_before _ NaN = True"
| "ranks_before NaN _ = False"
| "ranks_before PosInf _ = True"
| "ranks_before _ PosInf = False"
| "ranks_before _ NegInf = True"
| "ranks_before NegInf _ = False"
| "ranks_before (Finite a) (Finite b) = (a \<ge> b)"

definition sort_values :: "row list \<Rightarrow> row list \<Rightarrow> bool" where
  "sort_values df out \<longleftrightarrow>
     mset out = mset df \<and> sorted_wrt (\<lambda>a b. ranks_before (Score a) (Score b)) out"

text \<open>Lines 126-127: the rows printed as possible beacons.\<close>

definition possible_beacons :: "row list \<Rightarrow> row list" where
  "possible_beacons df = filter (\<lambda>r. np_gt (Score r) 0.7) df"

text \<open>The whole script: \<open>out\<close> is a frame that the script can print for the log \<open>df\<close>.\<close>

definition ranking :: "log_row list \<Rightarrow> row list \<Rightarrow> bool" where
  "ranking df out = (case scored_frame df of Inl e \<Rightarrow> False | Inr scored \<Rightarrow> sort_values scored out)"

text \<open>The ranking as the specification words it: a stable sort by descending score, rows
  with equal scores staying in the order of the frame.\<close>

fun insert_desc :: "row \<Rightarrow> row list \<Rightarrow> row list" where
  "insert_desc r [] = [r]"
| "insert_desc r (y # ys) =
     (if ranks_before (Score r) (Score y) then r # y # ys else y # insert_desc r ys)"

definition spec_stable_sort :: "row list \<Rightarrow> row list" where
  "spec_stable_sort df = foldr insert_desc df []"

subsection \<open>Sample logs\<close>

text \<open>Logs used to run the definitions: the rows of one conversation, and three
  timestamp lists of 37 instants: one second apart, all at the same instant, and with the
  last instant before the first.\<close>

definition conv_rows :: "string \<Rightarrow> string \<Rightarrow> string \<Rightarrow> int list \<Rightarrow> log_row list" where
  "conv_rows u ip d ts =
     map (\<lambda>t. \<lparr>timestamp = t, username = u, dest_ip = ip, domain = d\<rparr>) ts"

definition steady :: "int list" where
  "steady = [0..36]"


definition backwards :: "int list" where
  "backwards = [1..36] @ [0]"

section \<open>Properties\<close>

subsection \<open>Exceptions\<close>

lemma bind_err_Inr [simp]: "bind_err (Inr x) f = f x"
  by (simp add: bind_err_def)

lemma bind_err_Inl [simp]: "bind_err (Inl e) f = Inl e"
  by (simp add: bind_err_def)

lemma map_err_Inr_iff: "map_err f xs = Inr ys \<longleftrightarrow> list_all2 (\<lambda>x y. f x = Inr y) xs ys"
proof (induction xs arbitrary: ys)
  case Nil
  then show ?case by auto
next
  case (Cons x xs)
  show ?case
  proof (cases "f x")
    case (Inl e)
    then show ?thesis by (simp add: list_all2_Cons1)
  next
    case fx: (Inr y)
    show ?thesis
    proof (cases "map_err f xs")
      case (Inl e)
      have "\<not> list_all2 (\<lambda>x y. f x = Inr y) xs zs" for zs
        using Cons.IH [of zs] Inl by simp
      with Inl fx show ?thesis by (simp add: list_all2_Cons1)
    next
      case (Inr zs)
      have u: "list_all2 (\<lambda>x y. f x = Inr y) xs zs' \<longleftrightarrow> zs = zs'" for zs'
        using Cons.IH [of zs'] Inr by simp
      show ?thesis
        by (simp add: Inr fx list_all2_Cons1 u) blast
    qed
  qed
qed

lemma map_err_total:
  assumes "\<And>x. x \<in> set xs \<Longrightarrow> \<exists>y. f x = Inr y"
  shows "\<exists>ys. map_err f xs = Inr ys"
  using assms
proof (induction xs)
  case Nil
  then show ?case by simp
next
  case (Cons x xs)
  then obtain y ys where "f x = Inr y" "map_err f xs = Inr ys"
    by (metis list.set_intros(1,2))
  then show ?case by simp
qed

subsection \<open>Order statistics\<close>

text \<open>On a sorted series the interpolated value grows with the rank.\<close>

lemma lerp_at_mono:
  assumes "sorted s" and "k \<le> k'" and "k' div 100 < length s"
  shows "lerp_at s k \<le> lerp_at s k'"
proof -
  define i where "i = k div 100"
  define i' where "i' = k' div 100"
  define j where "j = min (i + 1) (length s - 1)"
  define j' where "j' = min (i' + 1) (length s - 1)"
  define g where "g = real (k mod 100) / 100"
  define g' where "g' = real (k' mod 100) / 100"
  have ii': "i \<le> i'"
    using assms(2) by (simp add: i_def i'_def div_le_mono)
  have i'n: "i' < length s"
    using assms(3) by (simp add: i'_def)
  have g: "0 \<le> g" "g \<le> 1" and g': "0 \<le> g'"
    by (simp_all add: g_def g'_def)
  have ij: "s ! i \<le> s ! j"
    using assms(1) ii' i'n by (intro sorted_nth_mono) (auto simp: j_def)
  have i'j': "s ! i' \<le> s ! j'"
    using assms(1) i'n by (intro sorted_nth_mono) (auto simp: j'_def)
  have L: "lerp_at s k = s ! i + (s ! j - s ! i) * g"
    by (simp add: lerp_at_def Let_def i_def j_def g_def)
  have L': "lerp_at s k' = s ! i' + (s ! j' - s ! i') * g'"
    by (simp add: lerp_at_def Let_def i'_def j'_def g'_def)
  show ?thesis
  proof (cases "i = i'")
    case True
    then have jj: "j = j'" by (simp add: j_def j'_def)
    have "k mod 100 \<le> k' mod 100"
    proof -
      have "k = 100 * i + k mod 100" "k' = 100 * i' + k' mod 100"
        by (simp_all add: i_def i'_def)
      then show ?thesis using assms(2) True by linarith
    qed
    then have "g \<le> g'" by (simp add: g_def g'_def)
    then have "(s ! j - s ! i) * g \<le> (s ! j - s ! i) * g'"
      using ij by (intro mult_left_mono) simp_all
    then show ?thesis by (simp add: L L' True jj [symmetric])
  next
    case False
    then have lt: "i < i'" using ii' by simp
    have "(s ! j - s ! i) * g \<le> (s ! j - s ! i) * 1"
      using ij g by (intro mult_left_mono) simp_all
    then have a: "lerp_at s k \<le> s ! j" by (simp add: L)
    have b: "s ! j \<le> s ! i'"
      using assms(1) lt i'n by (intro sorted_nth_mono) (auto simp: j_def)
    have "0 \<le> (s ! j' - s ! i') * g'"
      using i'j' g' by (intro mult_nonneg_nonneg) simp_all
    then have c: "s ! i' \<le> lerp_at s k'" by (simp add: L')
    from a b c show ?thesis by linarith
  qed
qed

lemma percentile_mono:
  assumes "a \<noteq> []" and "q \<le> q'" and "q' \<le> 100"
  shows "\<exists>l h. percentile a q = Inr l \<and> percentile a q' = Inr h \<and> l \<le> h"
proof -
  have n: "0 < length a" using assms(1) by simp
  have "q' * (length a - 1) \<le> 100 * (length a - 1)"
    using assms(3) by (rule mult_le_mono1)
  then have "q' * (length a - 1) div 100 \<le> length a - 1"
    by (metis div_le_mono nonzero_mult_div_cancel_left zero_neq_numeral)
  moreover have "length a - 1 < length a"
    using n by simp
  ultimately have d: "q' * (length a - 1) div 100 < length (sort a)"
    by simp
  have "lerp_at (sort a) (q * (length a - 1)) \<le> lerp_at (sort a) (q' * (length a - 1))"
    using assms(2) d by (intro lerp_at_mono) (simp_all add: mult_le_mono1)
  then show ?thesis using assms by (simp add: percentile_def)
qed

lemma Skew_bounds:
  assumes "low \<le> mid" and "mid \<le> high"
  shows "\<exists>s. Skew low mid high = Inr s \<and> - 1 \<le> s \<and> s \<le> 1 \<and>
           s = (if high = low \<or> mid = low \<or> mid = high then 0
                else (low + high - 2 * mid) / (high - low))"
proof (cases "mid = low \<or> mid = high")
  case True
  then show ?thesis by (auto simp: Skew_def)
next
  case False
  then have lt: "low < mid" "mid < high" using assms by auto
  then have den: "0 < high - low" by simp
  have "- (high - low) \<le> low + high - 2 * mid" "low + high - 2 * mid \<le> high - low"
    using lt by simp_all
  then have "- 1 \<le> (low + high - 2 * mid) / (high - low)"
    and "(low + high - 2 * mid) / (high - low) \<le> 1"
    using den by (simp_all add: pos_le_divide_eq pos_divide_le_eq)
  then show ?thesis using False lt
    by (auto simp: Skew_def BowleyNum_def BowleyDen_def)
qed

text \<open>The first test of the guard of line 99 does not change the value: when the
  numerator is zero and the two other tests pass, the quotient is zero as well.\<close>

lemma Skew_guard_redundant:
  "Skew low mid high =
     (if mid \<noteq> low \<and> mid \<noteq> high
      then (if BowleyDen low high = 0 then Inl ZeroDivisionError
            else Inr (BowleyNum low mid high / BowleyDen low high))
      else Inr 0)"
  by (auto simp: Skew_def BowleyNum_def BowleyDen_def)

lemma median_eq:
  "a \<noteq> [] \<Longrightarrow>
   median a = Inr (if odd (length a) then sort a ! (length a div 2)
                   else (sort a ! (length a div 2 - 1) + sort a ! (length a div 2)) / 2)"
  by (simp add: median_def Let_def)

lemma median_nonneg:
  assumes "a \<noteq> []" and "\<forall>x \<in> set a. 0 \<le> x"
  shows "\<exists>m. median a = Inr m \<and> 0 \<le> m"
proof -
  have n: "0 < length (sort a)" using assms(1) by simp
  have nn: "\<And>i. i < length (sort a) \<Longrightarrow> 0 \<le> sort a ! i"
    using assms(2) by (metis nth_mem set_sort)
  have "0 \<le> sort a ! (length (sort a) div 2)"
    using n by (intro nn) simp
  moreover have "0 \<le> sort a ! (length (sort a) div 2 - 1)"
    using n by (intro nn) (simp add: less_imp_diff_less)
  ultimately have "0 \<le> (if odd (length a) then sort a ! (length a div 2)
                   else (sort a ! (length a div 2 - 1) + sort a ! (length a div 2)) / 2)"
    by simp
  then show ?thesis using median_eq [OF assms(1)] by blast
qed

lemma median_Inr: "a \<noteq> [] \<Longrightarrow> \<exists>m. median a = Inr m"
  using median_eq by blast

lemma Madm_nonneg:
  assumes "d \<noteq> []"
  shows "\<exists>m. Madm d = Inr m \<and> 0 \<le> m"
proof -
  have s: "seconds d \<noteq> []" using assms by (simp add: seconds_def)
  then obtain c where c: "median (seconds d) = Inr c"
    using median_Inr by blast
  have "\<exists>m. median (map (\<lambda>y. \<bar>y - c\<bar>) (seconds d)) = Inr m \<and> 0 \<le> m"
    using s by (intro median_nonneg) auto
  then show ?thesis by (simp add: Madm_def bind_err_def c)
qed

lemma length_Deltas: "length (Deltas x) = length x - 1"
  by (induction x rule: Deltas.induct) simp_all

lemma nth_Deltas: "i + 1 < length x \<Longrightarrow> Deltas x ! i = x ! (i + 1) - x ! i"
proof (induction x arbitrary: i rule: Deltas.induct)
  case (1 x y ys)
  then show ?case by (cases i) simp_all
qed simp_all

lemma percentiles_ordered:
  assumes "d \<noteq> []"
  shows "\<exists>low mid high. Low d = Inr low \<and> Mid d = Inr mid \<and> High d = Inr high \<and>
           low \<le> mid \<and> mid \<le> high"
proof -
  have s: "seconds d \<noteq> []" using assms by (simp add: seconds_def)
  obtain low mid where a: "percentile (seconds d) 20 = Inr low"
      "percentile (seconds d) 50 = Inr mid" "low \<le> mid"
    using percentile_mono [OF s, of 20 50] by auto
  obtain mid' high where b: "percentile (seconds d) 50 = Inr mid'"
      "percentile (seconds d) 80 = Inr high" "mid' \<le> high"
    using percentile_mono [OF s, of 50 80] by auto
  from a b show ?thesis by (simp add: Low_def Mid_def High_def)
qed

lemma Skew_of_deltas_Inr:
  assumes "d \<noteq> []"
  shows "\<exists>low mid high skew.
           Low d = Inr low \<and> Mid d = Inr mid \<and> High d = Inr high \<and>
           low \<le> mid \<and> mid \<le> high \<and> Skew low mid high = Inr skew \<and>
           Skew_of_deltas d = Inr skew \<and> - 1 \<le> skew \<and> skew \<le> 1"
proof -
  obtain low mid high where p: "Low d = Inr low" "Mid d = Inr mid" "High d = Inr high"
      "low \<le> mid" "mid \<le> high"
    using percentiles_ordered [OF assms] by blast
  obtain skew where k: "Skew low mid high = Inr skew" "- 1 \<le> skew" "skew \<le> 1"
    using Skew_bounds [OF p(4,5)] by blast
  have "Skew_of_deltas d = Inr skew"
    by (simp add: Skew_of_deltas_def p k)
  then show ?thesis using p k by blast
qed

subsection \<open>Time deltas and span\<close>

text \<open>Claim C7. For a conversation with \<open>count\<close> timestamps the delta series has
  \<open>count - 1\<close> entries, entry \<open>i\<close> is the timestamp at \<open>i + 1\<close> minus the timestamp at
  \<open>i\<close> in the order of the list (nothing is sorted), and the span is the last timestamp
  minus the first one as they stand in the list, with its sign: it is not clamped.\<close>

theorem deltas_and_span:
  "length (Deltas x) = length x - 1 \<and>
   (\<forall>i. i + 1 < length x \<longrightarrow> Deltas x ! i = x ! (i + 1) - x ! i) \<and>
   (x \<noteq> [] \<longrightarrow> ConnDiv x = Inr (real_of_int (last x - hd x)))"
  by (simp add: length_Deltas nth_Deltas ConnDiv_def)

theorem deltas_and_span_witness:
  "length (Deltas [50, 20, 30]) = length [50, 20, 30 :: int] - 1 \<and>
   (0::nat) + 1 < length [50, 20, 30 :: int] \<and> 1 + 1 < length [50, 20, 30 :: int] \<and>
   Deltas [50, 20, 30] = [- 30, 10] \<and>
   [50, 20, 30 :: int] \<noteq> [] \<and> ConnDiv [50, 20, 30] = Inr (- 20)"
  using deltas_and_span [of "[50, 20, 30]"]
  by (simp add: ConnDiv_def)

subsection \<open>Skewness\<close>

text \<open>Claim C3. For every non-empty delta series, with \<open>low\<close>, \<open>mid\<close>, \<open>high\<close> its
  20th, 50th and 80th percentile, the script computes a skew without raising, the skew
  is \<open>(low + high - 2 * mid) / (high - low)\<close> unless \<open>high = low\<close> or \<open>mid = low\<close> or
  \<open>mid = high\<close>, where it is \<open>0\<close>; it lies between \<open>-1\<close> and \<open>1\<close>, and it is \<open>0\<close>
  when \<open>high = low\<close>. (The guard of line 99 tests the numerator instead of
  \<open>high = low\<close>; on percentiles, which are ordered, both guards give the same value.)\<close>

theorem skew_formula_and_bounds:
  assumes "d \<noteq> []"
  shows "\<exists>low mid high skew.
           Low d = Inr low \<and> Mid d = Inr mid \<and> High d = Inr high \<and>
           Skew_of_deltas d = Inr skew \<and>
           skew = (if high = low \<or> mid = low \<or> mid = high then 0
                   else (low + high - 2 * mid) / (high - low)) \<and>
           - 1 \<le> skew \<and> skew \<le> 1 \<and> (high = low \<longrightarrow> skew = 0)"
proof -
  obtain low mid high skew where p: "Low d = Inr low" "Mid d = Inr mid" "High d = Inr high"
      "low \<le> mid" "mid \<le> high" "Skew low mid high = Inr skew"
      "Skew_of_deltas d = Inr skew"
    using Skew_of_deltas_Inr [OF assms] by blast
  obtain skew' where k: "Skew low mid high = Inr skew'" "- 1 \<le> skew'" "skew' \<le> 1"
      "skew' = (if high = low \<or> mid = low \<or> mid = high then 0
                else (low + high - 2 * mid) / (high - low))"
    using Skew_bounds [OF p(4,5)] by blast
  from p(6) k(1) have e: "skew' = skew" by simp
  have z: "high = low \<longrightarrow> skew = 0"
    using k(4) e by simp
  show ?thesis
    by (intro exI conjI) (rule p(1,2,3,7) k(2,3,4) [unfolded e] z)+
qed

theorem skew_formula_and_bounds_witness:
  "[1, 2, 3, 4, 10 :: int] \<noteq> [] \<and>
   Low [1, 2, 3, 4, 10] = Inr (9 / 5) \<and> Mid [1, 2, 3, 4, 10] = Inr 3 \<and>
   High [1, 2, 3, 4, 10] = Inr (26 / 5) \<and>
   Skew_of_deltas [1, 2, 3, 4, 10] = Inr (5 / 17) \<and>
   Skew_of_deltas [7, 7, 7] = Inr 0"
  using skew_formula_and_bounds [of "[1, 2, 3, 4, 10]"]
    skew_formula_and_bounds [of "[7, 7, 7]"]
  by (simp add: Low_def Mid_def High_def percentile_def lerp_at_def seconds_def
      Skew_of_deltas_def Skew_def BowleyNum_def BowleyDen_def bind_err_def)

subsection \<open>Sub-scores\<close>

text \<open>Claim C4. For a positive span the rate score is \<open>min 1 (10 * count / span)\<close>; it
  is \<open>1\<close> as soon as the quotient is at least \<open>1\<close>, the quotient \<open>1\<close> included.\<close>

theorem rate_score_capped:
  assumes "0 < connDiv"
  shows "ConnCountScore cnt connDiv = Finite (min 1 (10 * real cnt / connDiv)) \<and>
         (1 \<le> 10 * real cnt / connDiv \<longrightarrow> ConnCountScore cnt connDiv = Finite 1)"
  using assms by (auto simp: ConnCountScore_def np_truediv_def Let_def min_def)

theorem rate_score_capped_witness:
  "(0::real) < 370 \<and> ConnCountScore 37 370 = Finite 1 \<and>
   ConnCountScore 37 36 = Finite 1 \<and> ConnCountScore 37 740 = Finite (1 / 2)"
  using rate_score_capped [of 370 37] rate_score_capped [of 36 37]
    rate_score_capped [of 740 37]
  by simp

text \<open>Claim C5. The dispersion score is \<open>max 0 (1 - mad / 30)\<close>: it never grows when
  \<open>mad\<close> grows (it depends on nothing else), and it is \<open>0\<close> from \<open>mad = 30\<close> on.\<close>

theorem dispersion_score_monotone:
  "MadmScore mad = max 0 (1 - mad / 30) \<and>
   (mad \<le> mad' \<longrightarrow> MadmScore mad' \<le> MadmScore mad) \<and>
   (30 \<le> mad \<longrightarrow> MadmScore mad = 0)"
  by (auto simp: MadmScore_def Let_def max_def)

theorem dispersion_score_monotone_witness:
  "(15::real) \<le> 45 \<and> MadmScore 45 \<le> MadmScore 15 \<and> (30::real) \<le> 45 \<and>
   MadmScore 45 = 0 \<and> MadmScore 15 = 1 / 2"
  using dispersion_score_monotone [of 15 45] dispersion_score_monotone [of 45 45]
  by (simp add: MadmScore_def)

subsection \<open>Scoring one conversation\<close>

text \<open>A row with at least two timestamps is scored without an exception.\<close>

lemma score_row_Inr:
  assumes "1 < g_count g"
  shows "\<exists>skew madm.
           Skew_of_deltas (Deltas (g_time g)) = Inr skew \<and> - 1 \<le> skew \<and> skew \<le> 1 \<and>
           Madm (Deltas (g_time g)) = Inr madm \<and> 0 \<le> madm \<and>
           ConnDiv (g_time g) = Inr (real_of_int (last (g_time g) - hd (g_time g))) \<and>
           score_row g =
             Inr \<lparr>Score = calc_Score (SkewScore skew) (MadmScore madm)
                     (ConnCountScore (g_count g)
                        (real_of_int (last (g_time g) - hd (g_time g)))),
                  Count = g_count g, src = g_src g, dst = g_dst g,
                  dlt = Deltas (g_time g)\<rparr>"
proof -
  have "length (Deltas (g_time g)) \<noteq> 0"
    using assms by (simp add: length_Deltas g_count_def)
  then have d: "Deltas (g_time g) \<noteq> []" by simp
  from assms have x: "g_time g \<noteq> []" by (auto simp: g_count_def)
  obtain skew where k: "Skew_of_deltas (Deltas (g_time g)) = Inr skew"
      "- 1 \<le> skew" "skew \<le> 1"
    using Skew_of_deltas_Inr [OF d] by blast
  obtain madm where m: "Madm (Deltas (g_time g)) = Inr madm" "0 \<le> madm"
    using Madm_nonneg [OF d] by blast
  have c: "ConnDiv (g_time g) = Inr (real_of_int (last (g_time g) - hd (g_time g)))"
    using x by (simp add: ConnDiv_def)
  show ?thesis using k m c by (simp add: score_row_def Let_def)
qed

text \<open>The same, with the span named.\<close>

lemma score_row_with_span:
  assumes "1 < g_count g" and "ConnDiv (g_time g) = Inr c"
  shows "\<exists>skew madm.
           Skew_of_deltas (Deltas (g_time g)) = Inr skew \<and> - 1 \<le> skew \<and> skew \<le> 1 \<and>
           Madm (Deltas (g_time g)) = Inr madm \<and> 0 \<le> madm \<and>
           score_row g =
             Inr \<lparr>Score = calc_Score (SkewScore skew) (MadmScore madm)
                     (ConnCountScore (g_count g) c),
                  Count = g_count g, src = g_src g, dst = g_dst g,
                  dlt = Deltas (g_time g)\<rparr>"
proof -
  obtain skew madm where
    k: "Skew_of_deltas (Deltas (g_time g)) = Inr skew" "- 1 \<le> skew" "skew \<le> 1" and
    m: "Madm (Deltas (g_time g)) = Inr madm" "0 \<le> madm" and
    c: "ConnDiv (g_time g) = Inr (real_of_int (last (g_time g) - hd (g_time g)))" and
    r: "score_row g =
          Inr \<lparr>Score = calc_Score (SkewScore skew) (MadmScore madm)
                  (ConnCountScore (g_count g)
                     (real_of_int (last (g_time g) - hd (g_time g)))),
               Count = g_count g, src = g_src g, dst = g_dst g,
               dlt = Deltas (g_time g)\<rparr>"
    using score_row_Inr [OF assms(1)] by blast
  from c assms(2) have e: "real_of_int (last (g_time g) - hd (g_time g)) = c"
    by simp
  from r have r': "score_row g =
          Inr \<lparr>Score = calc_Score (SkewScore skew) (MadmScore madm)
                  (ConnCountScore (g_count g) c),
               Count = g_count g, src = g_src g, dst = g_dst g,
               dlt = Deltas (g_time g)\<rparr>"
    unfolding e .
  show ?thesis
    by (intro exI conjI) (rule k m r')+
qed

lemma SkewScore_bounds: "- 1 \<le> skew \<Longrightarrow> skew \<le> 1 \<Longrightarrow> 0 \<le> SkewScore skew \<and> SkewScore skew \<le> 1"
  by (simp add: SkewScore_def abs_le_iff)

lemma MadmScore_bounds: "0 \<le> madm \<Longrightarrow> 0 \<le> MadmScore madm \<and> MadmScore madm \<le> 1"
  by (simp add: MadmScore_def Let_def)

text \<open>The sample timestamps one second apart.\<close>

lemma length_steady: "length steady = 37"
  by (simp add: steady_def)

lemma ConnDiv_steady: "ConnDiv steady = Inr 36"
  by code_simp

lemma Deltas_steady: "Deltas steady = replicate 36 1"
  by code_simp

lemma Skew_steady: "Skew_of_deltas (replicate 36 1) = Inr 0"
  by code_simp

lemma Madm_steady: "Madm (replicate 36 1) = Inr 0"
  by code_simp

lemma score_row_steady:
  "score_row \<lparr>g_src = u, g_dst = d, g_time = steady\<rparr> =
     Inr \<lparr>Score = Finite 1, Count = 37, src = u, dst = d, dlt = replicate 36 1\<rparr>"
  by (simp add: score_row_def Deltas_steady Skew_steady Madm_steady ConnDiv_steady
      g_count_def length_steady SkewScore_def MadmScore_def ConnCountScore_def
      np_truediv_def)

text \<open>Claim C1. A conversation with more than 36 timestamps and a positive span is
  scored without an exception, its score is the mean of the three sub-scores
  \<open>(SkewScore + MadmScore + ConnCountScore) / 3\<close>, and the score lies between \<open>0\<close> and
  \<open>1\<close>.\<close>

theorem score_bounded:
  assumes "36 < g_count g" and "ConnDiv (g_time g) = Inr connDiv" and "0 < connDiv"
  shows "\<exists>skew madm rate r s.
           Skew_of_deltas (Deltas (g_time g)) = Inr skew \<and>
           Madm (Deltas (g_time g)) = Inr madm \<and>
           ConnCountScore (g_count g) connDiv = Finite rate \<and>
           score_row g = Inr r \<and> Score r = Finite s \<and>
           s = (SkewScore skew + MadmScore madm + rate) / 3 \<and> 0 \<le> s \<and> s \<le> 1"
proof -
  from assms(1) have one: "1 < g_count g" by simp
  obtain skew madm where
    k: "Skew_of_deltas (Deltas (g_time g)) = Inr skew" "- 1 \<le> skew" "skew \<le> 1" and
    m: "Madm (Deltas (g_time g)) = Inr madm" "0 \<le> madm" and
    r: "score_row g =
          Inr \<lparr>Score = calc_Score (SkewScore skew) (MadmScore madm)
                  (ConnCountScore (g_count g) connDiv),
               Count = g_count g, src = g_src g, dst = g_dst g,
               dlt = Deltas (g_time g)\<rparr>"
    using score_row_with_span [OF one assms(2)] by blast
  define rate where "rate = min 1 (10 * real (g_count g) / connDiv)"
  have rt: "ConnCountScore (g_count g) connDiv = Finite rate"
    using assms(3) by (auto simp: rate_def ConnCountScore_def np_truediv_def Let_def min_def)
  have "0 \<le> 10 * real (g_count g) / connDiv"
    using assms(3) by simp
  then have rb: "0 \<le> rate" "rate \<le> 1"
    by (simp_all add: rate_def)
  define s where "s = (SkewScore skew + MadmScore madm + rate) / 3"
  have sb: "0 \<le> s" "s \<le> 1"
    using SkewScore_bounds [OF k(2,3)] MadmScore_bounds [OF m(2)] rb
    by (simp_all add: s_def)
  from r have "score_row g =
          Inr \<lparr>Score = Finite s, Count = g_count g, src = g_src g, dst = g_dst g,
               dlt = Deltas (g_time g)\<rparr>"
    by (simp add: rt s_def)
  then obtain r where sr: "score_row g = Inr r" "Score r = Finite s"
    by simp
  have sd: "s = (SkewScore skew + MadmScore madm + rate) / 3"
    by (rule s_def)
  show ?thesis
    by (intro exI conjI) (rule k(1) m(1) rt sr sd sb)+
qed

theorem score_bounded_witness:
  "36 < g_count \<lparr>g_src = ''u'', g_dst = ''d'', g_time = steady\<rparr> \<and>
   ConnDiv (g_time \<lparr>g_src = ''u'', g_dst = ''d'', g_time = steady\<rparr>) = Inr 36 \<and>
   (0::real) < 36 \<and>
   (\<exists>r. score_row \<lparr>g_src = ''u'', g_dst = ''d'', g_time = steady\<rparr> = Inr r \<and>
        Score r = Finite 1)"
proof -
  let ?g = "\<lparr>g_src = ''u'', g_dst = ''d'', g_time = steady\<rparr>"
  have h1: "36 < g_count ?g" by (simp add: g_count_def length_steady)
  have h2: "ConnDiv (g_time ?g) = Inr 36" by (simp add: ConnDiv_steady)
  have h3: "(0::real) < 36" by simp
  have "\<exists>r s. score_row ?g = Inr r \<and> Score r = Finite s"
    using score_bounded [OF h1 h2 h3] by blast
  then have "\<exists>r. score_row ?g = Inr r \<and> Score r = Finite 1"
    by (simp add: score_row_steady)
  with h1 h2 h3 show ?thesis by blast
qed

subsection \<open>The frame of conversations\<close>

lemma conversations_count: "g \<in> set (conversations df) \<Longrightarrow> 36 < g_count g"
  by (simp add: conversations_def short_session_filter_def)

lemma conversations_key:
  assumes "g \<in> set (conversations df)"
  shows "\<exists>l \<in> set df. username l = g_src g \<and> domain l = g_dst g \<and>
           username l \<noteq> ''-'' \<and> dest_ip l \<noteq> ''-''"
proof -
  from assms have "g \<in> set (groupby_agg (sentinel_filter df))"
    by (simp add: conversations_def short_session_filter_def)
  then obtain l where "l \<in> set (sentinel_filter df)"
      "g_src g = username l" "g_dst g = domain l"
    by (auto simp: groupby_agg_def conv_key_def)
  then show ?thesis
    by (auto simp: sentinel_filter_def)
qed

lemma score_row_fields:
  assumes "score_row g = Inr r"
  shows "src r = g_src g \<and> dst r = g_dst g \<and> Count r = g_count g \<and>
         dlt r = Deltas (g_time g)"
  using assms
  by (auto simp: score_row_def Let_def bind_err_def split: sum.splits)

lemma ConnCountScore_Finite:
  assumes "0 < cnt"
  shows "\<exists>rate. ConnCountScore cnt connDiv = Finite rate"
  using assms by (simp add: ConnCountScore_def np_truediv_def Let_def)

lemma score_row_Finite:
  assumes "1 < g_count g" and "score_row g = Inr r"
  shows "\<exists>s. Score r = Finite s"
proof -
  define c where "c = real_of_int (last (g_time g) - hd (g_time g))"
  obtain rate where rt: "ConnCountScore (g_count g) c = Finite rate"
    using ConnCountScore_Finite [of "g_count g" c] assms(1) by auto
  obtain skew madm where "score_row g =
      Inr \<lparr>Score = calc_Score (SkewScore skew) (MadmScore madm)
              (ConnCountScore (g_count g) c),
           Count = g_count g, src = g_src g, dst = g_dst g, dlt = Deltas (g_time g)\<rparr>"
    using score_row_Inr [OF assms(1)] unfolding c_def by blast
  with assms(2) have "Score r = calc_Score (SkewScore skew) (MadmScore madm) (Finite rate)"
    unfolding rt by auto
  then show ?thesis
    by (simp only: calc_Score.simps) blast
qed

lemma scored_frame_Inr:
  "\<exists>scored. scored_frame df = Inr scored \<and>
     list_all2 (\<lambda>g r. score_row g = Inr r) (conversations df) scored"
proof -
  have "\<exists>r. score_row g = Inr r" if "g \<in> set (conversations df)" for g
  proof -
    from that have "1 < g_count g" using conversations_count by fastforce
    from score_row_Inr [OF this] show ?thesis by blast
  qed
  then obtain scored where m: "map_err score_row (conversations df) = Inr scored"
    using map_err_total by blast
  then have "list_all2 (\<lambda>g r. score_row g = Inr r) (conversations df) scored"
    by (simp only: map_err_Inr_iff)
  with m show ?thesis
    unfolding scored_frame_def by blast
qed

lemma ranking_rows:
  assumes "ranking df out"
  shows "\<exists>scored. scored_frame df = Inr scored \<and> mset out = mset scored \<and>
           list_all2 (\<lambda>g r. score_row g = Inr r) (conversations df) scored \<and>
           sorted_wrt (\<lambda>a b. ranks_before (Score a) (Score b)) out"
proof -
  obtain scored where s: "scored_frame df = Inr scored"
      "list_all2 (\<lambda>g r. score_row g = Inr r) (conversations df) scored"
    using scored_frame_Inr by blast
  with assms have "sort_values scored out"
    by (simp add: ranking_def)
  with s show ?thesis by (simp add: sort_values_def)
qed

lemma ranking_has_row:
  assumes "ranking df out" and "g \<in> set (conversations df)"
  shows "\<exists>r \<in> set out. score_row g = Inr r"
proof -
  obtain scored where s: "mset out = mset scored"
      "list_all2 (\<lambda>g r. score_row g = Inr r) (conversations df) scored"
    using ranking_rows [OF assms(1)] by blast
  from assms(2) obtain i where i: "i < length (conversations df)" "conversations df ! i = g"
    by (auto simp: in_set_conv_nth)
  with s(2) have "score_row g = Inr (scored ! i)" "i < length scored"
    by (auto simp: list_all2_conv_all_nth)
  moreover have "set out = set scored"
    using s(1) by (rule mset_eq_setD)
  ultimately show ?thesis by auto
qed

lemma ranking_row_origin:
  assumes "ranking df out" and "r \<in> set out"
  shows "\<exists>g \<in> set (conversations df). score_row g = Inr r"
proof -
  obtain scored where s: "mset out = mset scored"
      "list_all2 (\<lambda>g r. score_row g = Inr r) (conversations df) scored"
    using ranking_rows [OF assms(1)] by blast
  have "set out = set scored"
    using s(1) by (rule mset_eq_setD)
  with assms(2) obtain i where i: "i < length scored" "scored ! i = r"
    by (auto simp: in_set_conv_nth)
  with s(2) have "score_row (conversations df ! i) = Inr r" "i < length (conversations df)"
    by (auto simp: list_all2_conv_all_nth)
  then show ?thesis by (metis nth_mem)
qed

subsection \<open>Logs of one conversation\<close>

lemma remdups_replicate_Suc: "remdups (replicate (Suc n) x) = [x]"
  by (induction n) auto

lemma groupby_agg_single:
  assumes "ts \<noteq> []" and "u \<noteq> ''-''" and "ip \<noteq> ''-''"
  shows "groupby_agg (sentinel_filter (conv_rows u ip d ts)) =
           [\<lparr>g_src = u, g_dst = d, g_time = ts\<rparr>]"
proof -
  have f: "sentinel_filter (conv_rows u ip d ts) = conv_rows u ip d ts"
    using assms(2,3) by (simp add: sentinel_filter_def conv_rows_def)
  have k: "map conv_key (conv_rows u ip d ts) = replicate (length ts) (u, d)"
    by (simp add: conv_rows_def conv_key_def comp_def map_replicate_const)
  have r: "remdups (replicate (length ts) (u, d)) = [(u, d)]"
    using assms(1) remdups_replicate_Suc [of "length ts - 1" "(u, d)"] by simp
  have t: "map timestamp (filter (\<lambda>r. conv_key r = (u, d)) (conv_rows u ip d ts)) = ts"
    by (simp add: conv_rows_def conv_key_def comp_def filter_map)
  show ?thesis
    by (simp add: groupby_agg_def f k r t)
qed

lemma conversations_single:
  assumes "36 < length ts" and "u \<noteq> ''-''" and "ip \<noteq> ''-''"
  shows "conversations (conv_rows u ip d ts) = [\<lparr>g_src = u, g_dst = d, g_time = ts\<rparr>]"
proof -
  from assms(1) have "ts \<noteq> []" by auto
  from groupby_agg_single [OF this assms(2,3)] assms(1) show ?thesis
    by (simp add: conversations_def short_session_filter_def g_count_def)
qed

lemma sort_values_single: "sort_values [r] [r]"
  by (simp add: sort_values_def)

lemma ranking_single:
  assumes "36 < length ts" and "u \<noteq> ''-''" and "ip \<noteq> ''-''"
    and "score_row \<lparr>g_src = u, g_dst = d, g_time = ts\<rparr> = Inr r"
  shows "scored_frame (conv_rows u ip d ts) = Inr [r] \<and> ranking (conv_rows u ip d ts) [r]"
  by (simp add: ranking_def scored_frame_def conversations_single [OF assms(1,2,3)] assms(4)
      sort_values_single)







text \<open>The sample timestamps whose last instant is before the first.\<close>

lemma length_backwards: "length backwards = 37"
  by (simp add: backwards_def)

lemma ConnDiv_backwards: "ConnDiv backwards = Inr (- 1)"
  by code_simp

lemma Deltas_backwards: "Deltas backwards = replicate 35 1 @ [- 36]"
  by code_simp

lemma Skew_backwards: "Skew_of_deltas (replicate 35 1 @ [- 36]) = Inr 0"
  by code_simp

lemma Madm_backwards: "Madm (replicate 35 1 @ [- 36]) = Inr 0"
  by code_simp

lemma score_row_backwards:
  "score_row \<lparr>g_src = u, g_dst = d, g_time = backwards\<rparr> =
     Inr \<lparr>Score = Finite (- (368 / 3)), Count = 37, src = u, dst = d,
          dlt = replicate 35 1 @ [- 36]\<rparr>"
  by (simp add: score_row_def Deltas_backwards Skew_backwards Madm_backwards
      ConnDiv_backwards g_count_def length_backwards SkewScore_def MadmScore_def
      ConnCountScore_def np_truediv_def)

subsection \<open>The activity filter\<close>

text \<open>Claim C6. The filter of line 79 keeps a conversation exactly when its count is
  greater than 36: a conversation with 36 timestamps is dropped, one with 37 timestamps is
  kept, and a frame in which no conversation has more than 36 timestamps is filtered to
  the empty frame (a value, not an exception). No conversation with 36 or fewer
  timestamps reaches the ranking.\<close>

theorem filter_boundary:
  "(g_count g = 36 \<longrightarrow> g \<notin> set (short_session_filter gs)) \<and>
   (g \<in> set gs \<and> g_count g = 37 \<longrightarrow> g \<in> set (short_session_filter gs)) \<and>
   ((\<forall>g' \<in> set gs. g_count g' \<le> 36) \<longrightarrow> short_session_filter gs = []) \<and>
   (\<forall>r \<in> set out. ranking df out \<longrightarrow> 36 < Count r)"
proof -
  have "36 < Count r" if h: "ranking df out" "r \<in> set out" for r
  proof -
    obtain g' where "g' \<in> set (conversations df)" "score_row g' = Inr r"
      using ranking_row_origin [OF h] by blast
    then show ?thesis
      using conversations_count score_row_fields by fastforce
  qed
  then show ?thesis
    by (auto simp: short_session_filter_def filter_empty_conv not_less)
qed

theorem filter_boundary_witness:
  "g_count \<lparr>g_src = ''u'', g_dst = ''d'', g_time = replicate 36 0\<rparr> = 36 \<and>
   g_count \<lparr>g_src = ''u'', g_dst = ''e'', g_time = steady\<rparr> = 37 \<and>
   short_session_filter
     [\<lparr>g_src = ''u'', g_dst = ''d'', g_time = replicate 36 0\<rparr>,
      \<lparr>g_src = ''u'', g_dst = ''e'', g_time = steady\<rparr>] =
     [\<lparr>g_src = ''u'', g_dst = ''e'', g_time = steady\<rparr>] \<and>
   short_session_filter [\<lparr>g_src = ''u'', g_dst = ''d'', g_time = replicate 36 0\<rparr>] = [] \<and>
   ranking (conv_rows ''u'' ''1.2.3.4'' ''e'' steady)
     [\<lparr>Score = Finite 1, Count = 37, src = ''u'', dst = ''e'', dlt = replicate 36 1\<rparr>] \<and>
   36 < Count \<lparr>Score = Finite 1, Count = 37, src = ''u'', dst = ''e'', dlt = replicate 36 1\<rparr>"
proof -
  let ?g36 = "\<lparr>g_src = ''u'', g_dst = ''d'', g_time = replicate 36 0\<rparr>"
  let ?g37 = "\<lparr>g_src = ''u'', g_dst = ''e'', g_time = steady\<rparr>"
  let ?r = "\<lparr>Score = Finite 1, Count = 37, src = ''u'', dst = ''e'', dlt = replicate 36 1\<rparr>"
  have a: "g_count ?g36 = 36" "g_count ?g37 = 37"
    by (simp_all add: g_count_def length_steady)
  have b: "ranking (conv_rows ''u'' ''1.2.3.4'' ''e'' steady) [?r]"
    using ranking_single [OF _ _ _ score_row_steady, of "''u''" "''1.2.3.4''" "''e''"]
    by (simp add: length_steady)
  have c: "short_session_filter [?g36, ?g37] = [?g37]" "short_session_filter [?g36] = []"
    by (simp_all add: short_session_filter_def a)
  note t1 = filter_boundary [of ?g36 "[?g36, ?g37]" "[?r]" "conv_rows ''u'' ''1.2.3.4'' ''e'' steady"]
  note t2 = filter_boundary [of ?g37 "[?g36]" "[?r]" "conv_rows ''u'' ''1.2.3.4'' ''e'' steady"]
  from t1 t2 a b c show ?thesis by simp
qed

subsection \<open>The span as divisor\<close>




text \<open>Claim C10. The rate score is capped from above only. For a conversation that
  passes the filter and whose span is negative, the rate score is the quotient
  \<open>10 * count / span\<close> itself, a negative number; the score is the mean of the three
  sub-scores with that negative summand, it is below \<open>0\<close> as soon as the quotient is
  below \<open>-2\<close>, and the conversation is in every ranking of the log.\<close>

theorem negative_span_rate_unclamped:
  assumes "g \<in> set (conversations df)" and "ConnDiv (g_time g) = Inr connDiv"
    and "connDiv < 0" and "ranking df out"
  shows "ConnCountScore (g_count g) connDiv = Finite (10 * real (g_count g) / connDiv) \<and>
         10 * real (g_count g) / connDiv < 0 \<and>
         (\<exists>r \<in> set out. \<exists>skew madm s.
            score_row g = Inr r \<and> src r = g_src g \<and> dst r = g_dst g \<and>
            Skew_of_deltas (Deltas (g_time g)) = Inr skew \<and>
            Madm (Deltas (g_time g)) = Inr madm \<and>
            Score r = Finite s \<and>
            s = (SkewScore skew + MadmScore madm + 10 * real (g_count g) / connDiv) / 3 \<and>
            (10 * real (g_count g) / connDiv < - 2 \<longrightarrow> s < 0))"
proof -
  define rate where "rate = 10 * real (g_count g) / connDiv"
  have cnt: "36 < g_count g"
    using assms(1) by (rule conversations_count)
  then have one: "1 < g_count g" by simp
  have neg: "rate < 0"
    using cnt assms(3) by (simp add: rate_def divide_neg_neg divide_pos_neg)
  have rt: "ConnCountScore (g_count g) connDiv = Finite rate"
    using assms(3) neg by (simp add: ConnCountScore_def np_truediv_def rate_def)
  obtain skew madm where
    k: "Skew_of_deltas (Deltas (g_time g)) = Inr skew" "- 1 \<le> skew" "skew \<le> 1" and
    m: "Madm (Deltas (g_time g)) = Inr madm" "0 \<le> madm" and
    r: "score_row g =
          Inr \<lparr>Score = calc_Score (SkewScore skew) (MadmScore madm)
                  (ConnCountScore (g_count g) connDiv),
               Count = g_count g, src = g_src g, dst = g_dst g,
               dlt = Deltas (g_time g)\<rparr>"
    using score_row_with_span [OF one assms(2)] by blast
  define s where "s = (SkewScore skew + MadmScore madm + rate) / 3"
  obtain r' where r': "r' \<in> set out" "score_row g = Inr r'"
    using ranking_has_row [OF assms(4,1)] by blast
  with r have f: "src r' = g_src g" "dst r' = g_dst g" "Score r' = Finite s"
    by (auto simp: rt s_def)
  have sd: "s = (SkewScore skew + MadmScore madm + rate) / 3"
    by (rule s_def)
  have low: "rate < - 2 \<longrightarrow> s < 0"
    using SkewScore_bounds [OF k(2,3)] MadmScore_bounds [OF m(2)]
    by (simp add: s_def)
  have "\<exists>r \<in> set out. \<exists>skew madm s.
            score_row g = Inr r \<and> src r = g_src g \<and> dst r = g_dst g \<and>
            Skew_of_deltas (Deltas (g_time g)) = Inr skew \<and>
            Madm (Deltas (g_time g)) = Inr madm \<and>
            Score r = Finite s \<and>
            s = (SkewScore skew + MadmScore madm + rate) / 3 \<and>
            (rate < - 2 \<longrightarrow> s < 0)"
    by (intro bexI [OF _ r'(1)] exI conjI) (rule r'(2) f k(1) m(1) sd low)+
  with rt neg show ?thesis
    unfolding rate_def by blast
qed

theorem negative_span_rate_unclamped_witness:
  "\<lparr>g_src = ''u'', g_dst = ''x.com'', g_time = backwards\<rparr>
     \<in> set (conversations (conv_rows ''u'' ''1.2.3.4'' ''x.com'' backwards)) \<and>
   ConnDiv (g_time \<lparr>g_src = ''u'', g_dst = ''x.com'', g_time = backwards\<rparr>) = Inr (- 1) \<and>
   (- 1 :: real) < 0 \<and>
   ranking (conv_rows ''u'' ''1.2.3.4'' ''x.com'' backwards)
     [\<lparr>Score = Finite (- (368 / 3)), Count = 37, src = ''u'', dst = ''x.com'',
       dlt = replicate 35 1 @ [- 36]\<rparr>] \<and>
   ConnCountScore (g_count \<lparr>g_src = ''u'', g_dst = ''x.com'', g_time = backwards\<rparr>) (- 1) =
     Finite (- 370) \<and>
   (- (368 / 3) :: real) < 0"
proof -
  let ?g = "\<lparr>g_src = ''u'', g_dst = ''x.com'', g_time = backwards\<rparr>"
  let ?df = "conv_rows ''u'' ''1.2.3.4'' ''x.com'' backwards"
  let ?r = "\<lparr>Score = Finite (- (368 / 3)), Count = 37, src = ''u'', dst = ''x.com'',
       dlt = replicate 35 1 @ [- 36]\<rparr>"
  have h1: "?g \<in> set (conversations ?df)"
    by (simp add: conversations_single length_backwards)
  have h2: "ConnDiv (g_time ?g) = Inr (- 1)"
    by (simp add: ConnDiv_backwards)
  have h3: "(- 1 :: real) < 0" by simp
  have h4: "ranking ?df [?r]"
    using ranking_single [OF _ _ _ score_row_backwards, of "''u''" "''1.2.3.4''" "''x.com''"]
    by (simp add: length_backwards)
  have "ConnCountScore (g_count ?g) (- 1) = Finite (10 * real (g_count ?g) / (- 1))"
    using negative_span_rate_unclamped [OF h1 h2 h3 h4] by blast
  then have "ConnCountScore (g_count ?g) (- 1) = Finite (- 370)"
    by (simp add: g_count_def length_backwards)
  with h1 h2 h3 h4 show ?thesis by simp
qed

subsection \<open>Sentinel rows\<close>

text \<open>The timestamps of a conversation are those of the log rows with its key that
  pass line 51, and every key with more than 36 such rows is a conversation.\<close>

lemma filter_key_sentinel:
  assumes "u \<noteq> ''-''"
  shows "filter (\<lambda>r. conv_key r = (u, d)) (sentinel_filter df) =
         filter (\<lambda>l. username l = u \<and> domain l = d \<and> dest_ip l \<noteq> ''-'') df"
  using assms
  by (auto simp: sentinel_filter_def conv_key_def intro: filter_cong)

lemma conversations_time:
  assumes "g \<in> set (conversations df)"
  shows "g_src g \<noteq> ''-'' \<and>
         g_time g = map timestamp
           (filter (\<lambda>l. username l = g_src g \<and> domain l = g_dst g \<and> dest_ip l \<noteq> ''-'') df)"
proof -
  from assms have "g \<in> set (groupby_agg (sentinel_filter df))"
    by (simp add: conversations_def short_session_filter_def)
  then obtain l where l: "l \<in> set (sentinel_filter df)"
      "g_src g = username l" "g_dst g = domain l"
      "g_time g = map timestamp
         (filter (\<lambda>r. conv_key r = (username l, domain l)) (sentinel_filter df))"
    by (auto simp: groupby_agg_def conv_key_def)
  from l(1) have u: "username l \<noteq> ''-''"
    by (simp add: sentinel_filter_def)
  from l(4) have "g_time g = map timestamp
      (filter (\<lambda>r. username r = username l \<and> domain r = domain l \<and> dest_ip r \<noteq> ''-'') df)"
    by (simp only: filter_key_sentinel [OF u])
  with u l(2,3) show ?thesis by simp
qed

lemma conversations_member:
  assumes "u \<noteq> ''-''"
    and "36 < length (filter (\<lambda>l. username l = u \<and> domain l = d \<and> dest_ip l \<noteq> ''-'') df)"
  shows "\<exists>g \<in> set (conversations df). g_src g = u \<and> g_dst g = d"
proof -
  let ?g = "\<lparr>g_src = u, g_dst = d,
             g_time = map timestamp (filter (\<lambda>r. conv_key r = (u, d)) (sentinel_filter df))\<rparr>"
  have e: "filter (\<lambda>r. conv_key r = (u, d)) (sentinel_filter df) =
           filter (\<lambda>l. username l = u \<and> domain l = d \<and> dest_ip l \<noteq> ''-'') df"
    by (rule filter_key_sentinel [OF assms(1)])
  from assms(2) have "filter (\<lambda>r. conv_key r = (u, d)) (sentinel_filter df) \<noteq> []"
    unfolding e by auto
  then obtain l where "l \<in> set (sentinel_filter df)" "conv_key l = (u, d)"
    by (auto simp: filter_empty_conv)
  then have "(u, d) \<in> set (sort (remdups (map conv_key (sentinel_filter df))))"
    by force
  then have "?g \<in> (\<lambda>k. \<lparr>g_src = fst k, g_dst = snd k,
               g_time = map timestamp
                 (filter (\<lambda>r. conv_key r = k) (sentinel_filter df))\<rparr>) `
             set (sort (remdups (map conv_key (sentinel_filter df))))"
    by (rule rev_image_eqI) simp
  then have "?g \<in> set (groupby_agg (sentinel_filter df))"
    by (simp add: groupby_agg_def)
  moreover have "36 < g_count ?g"
    using assms(2) by (simp add: g_count_def e)
  ultimately have "?g \<in> set (conversations df)"
    by (simp add: conversations_def short_session_filter_def)
  then show ?thesis by force
qed

text \<open>A log with one key: 37 rows with a destination address, and before and after
  them four rows whose \<^verbatim>\<open>dest_ip\<close> is \<^verbatim>\<open>'-'\<close>.\<close>

lemma conversations_mixed:
  "conversations (conv_rows ''u'' ''-'' ''x.com'' [100, 200] @
                  conv_rows ''u'' ''1.2.3.4'' ''x.com'' steady @
                  conv_rows ''u'' ''-'' ''x.com'' [300, 400]) =
     [\<lparr>g_src = ''u'', g_dst = ''x.com'', g_time = steady\<rparr>]"
  by code_simp

text \<open>Claim C9, as the script has it. Line 51 tests the columns \<^verbatim>\<open>username\<close> and
  \<^verbatim>\<open>dest_ip\<close>, and the conversations are keyed by \<^verbatim>\<open>username\<close> and \<^verbatim>\<open>domain\<close>. So
  every ranked conversation has a source different from \<^verbatim>\<open>'-'\<close> and is built from
  exactly the log rows with its source and destination whose \<^verbatim>\<open>dest_ip\<close> is not
  \<^verbatim>\<open>'-'\<close>: they are its count, more than 36, and their timestamps give its deltas.
  Conversely every key whose source is not \<^verbatim>\<open>'-'\<close> and that has more than 36 such rows
  is ranked. The destination itself, a domain, is not tested: a conversation whose
  destination is \<^verbatim>\<open>'-'\<close> can be ranked.\<close>

theorem ranked_rows_pass_sentinel_filter:
  assumes "ranking df out"
  shows "(\<forall>r \<in> set out.
            src r \<noteq> ''-'' \<and>
            Count r = length (filter (\<lambda>l. username l = src r \<and> domain l = dst r \<and>
                                          dest_ip l \<noteq> ''-'') df) \<and>
            dlt r = Deltas (map timestamp
                      (filter (\<lambda>l. username l = src r \<and> domain l = dst r \<and>
                                    dest_ip l \<noteq> ''-'') df)) \<and>
            36 < Count r) \<and>
         (\<forall>u d. u \<noteq> ''-'' \<and>
                 36 < length (filter (\<lambda>l. username l = u \<and> domain l = d \<and>
                                           dest_ip l \<noteq> ''-'') df) \<longrightarrow>
                 (\<exists>r \<in> set out. src r = u \<and> dst r = d))"
proof (intro conjI ballI allI impI)
  fix r assume r: "r \<in> set out"
  obtain g where g: "g \<in> set (conversations df)" "score_row g = Inr r"
    using ranking_row_origin [OF assms r] by blast
  have f: "src r = g_src g" "dst r = g_dst g" "Count r = g_count g"
      "dlt r = Deltas (g_time g)"
    using score_row_fields [OF g(2)] by simp_all
  have t: "g_src g \<noteq> ''-''"
    "g_time g = map timestamp
       (filter (\<lambda>l. username l = g_src g \<and> domain l = g_dst g \<and> dest_ip l \<noteq> ''-'') df)"
    using conversations_time [OF g(1)] by simp_all
  show "src r \<noteq> ''-''" using f t by simp
  show "Count r = length (filter (\<lambda>l. username l = src r \<and> domain l = dst r \<and>
                                          dest_ip l \<noteq> ''-'') df)"
    using t(2) by (simp add: f g_count_def)
  show "dlt r = Deltas (map timestamp
                      (filter (\<lambda>l. username l = src r \<and> domain l = dst r \<and>
                                    dest_ip l \<noteq> ''-'') df))"
    using t(2) by (simp add: f)
  show "36 < Count r"
    using conversations_count [OF g(1)] by (simp add: f)
next
  fix u d
  assume h: "u \<noteq> ''-'' \<and>
     36 < length (filter (\<lambda>l. username l = u \<and> domain l = d \<and> dest_ip l \<noteq> ''-'') df)"
  then obtain g where g: "g \<in> set (conversations df)" "g_src g = u" "g_dst g = d"
    using conversations_member [of u d df] by blast
  obtain r where r: "r \<in> set out" "score_row g = Inr r"
    using ranking_has_row [OF assms g(1)] by blast
  have "src r = g_src g" "dst r = g_dst g"
    using score_row_fields [OF r(2)] by simp_all
  with r(1) g(2,3) show "\<exists>r \<in> set out. src r = u \<and> dst r = d" by auto
qed

theorem ranked_rows_pass_sentinel_filter_witness:
  "ranking (conv_rows ''u'' ''-'' ''x.com'' [100, 200] @
            conv_rows ''u'' ''1.2.3.4'' ''x.com'' steady @
            conv_rows ''u'' ''-'' ''x.com'' [300, 400])
     [\<lparr>Score = Finite 1, Count = 37, src = ''u'', dst = ''x.com'', dlt = replicate 36 1\<rparr>] \<and>
   \<lparr>Score = Finite 1, Count = 37, src = ''u'', dst = ''x.com'', dlt = replicate 36 1\<rparr>
     \<in> set [\<lparr>Score = Finite 1, Count = 37, src = ''u'', dst = ''x.com'',
              dlt = replicate 36 1\<rparr>] \<and>
   ''u'' \<noteq> ''-'' \<and>
   length (filter (\<lambda>l. username l = ''u'' \<and> domain l = ''x.com'' \<and> dest_ip l \<noteq> ''-'')
            (conv_rows ''u'' ''-'' ''x.com'' [100, 200] @
             conv_rows ''u'' ''1.2.3.4'' ''x.com'' steady @
             conv_rows ''u'' ''-'' ''x.com'' [300, 400])) = 37 \<and>
   length (conv_rows ''u'' ''-'' ''x.com'' [100, 200] @
           conv_rows ''u'' ''1.2.3.4'' ''x.com'' steady @
           conv_rows ''u'' ''-'' ''x.com'' [300, 400]) = 41"
proof -
  let ?df = "conv_rows ''u'' ''-'' ''x.com'' [100, 200] @
             conv_rows ''u'' ''1.2.3.4'' ''x.com'' steady @
             conv_rows ''u'' ''-'' ''x.com'' [300, 400]"
  let ?r = "\<lparr>Score = Finite 1, Count = 37, src = ''u'', dst = ''x.com'', dlt = replicate 36 1\<rparr>"
  have h: "ranking ?df [?r]"
    by (simp add: ranking_def scored_frame_def conversations_mixed score_row_steady
        sort_values_single)
  have m: "?r \<in> set [?r]" by simp
  have "Count ?r = length (filter (\<lambda>l. username l = src ?r \<and> domain l = dst ?r \<and>
                                       dest_ip l \<noteq> ''-'') ?df)"
    using ranked_rows_pass_sentinel_filter [OF h] m by blast
  then have c: "length (filter (\<lambda>l. username l = ''u'' \<and> domain l = ''x.com'' \<and>
                                    dest_ip l \<noteq> ''-'') ?df) = 37"
    by simp
  have n: "length ?df = 41"
    by (simp add: conv_rows_def length_steady)
  from h m c n show ?thesis by simp
qed

text \<open>A log whose rows have a user, a destination address and the domain \<^verbatim>\<open>'-'\<close>:
  the conversation with the destination \<^verbatim>\<open>'-'\<close> is ranked.\<close>

theorem sentinel_destination_counterexample:
  "ranking (conv_rows ''u'' ''1.2.3.4'' ''-'' steady)
     [\<lparr>Score = Finite 1, Count = 37, src = ''u'', dst = ''-'', dlt = replicate 36 1\<rparr>] \<and>
   dst \<lparr>Score = Finite 1, Count = 37, src = ''u'', dst = ''-'', dlt = replicate 36 1\<rparr> = ''-''"
  using ranking_single [OF _ _ _ score_row_steady, of "''u''" "''1.2.3.4''" "''-''"]
  by (simp add: length_steady)

subsection \<open>Ranking\<close>

lemma ranks_before_total: "ranks_before a b \<or> ranks_before b a"
  by (cases a; cases b) auto

lemma ranks_before_trans: "ranks_before a b \<Longrightarrow> ranks_before b c \<Longrightarrow> ranks_before a c"
  by (cases a; cases b; cases c) auto

lemma mset_insert_desc: "mset (insert_desc r ys) = add_mset r (mset ys)"
  by (induction ys) auto

lemma set_insert_desc: "set (insert_desc r ys) = insert r (set ys)"
  by (induction ys) auto

lemma sorted_insert_desc:
  assumes "sorted_wrt (\<lambda>a b. ranks_before (Score a) (Score b)) ys"
  shows "sorted_wrt (\<lambda>a b. ranks_before (Score a) (Score b)) (insert_desc r ys)"
  using assms
proof (induction ys)
  case Nil
  then show ?case by simp
next
  case (Cons y ys)
  show ?case
  proof (cases "ranks_before (Score r) (Score y)")
    case True
    then have "\<forall>z \<in> set ys. ranks_before (Score r) (Score z)"
      using Cons.prems ranks_before_trans by fastforce
    with True Cons.prems show ?thesis by simp
  next
    case False
    then have "ranks_before (Score y) (Score r)"
      using ranks_before_total by blast
    with False Cons show ?thesis
      by (auto simp: set_insert_desc)
  qed
qed

text \<open>The relation is not empty: the stable order of the specification is one of
  the orders that it admits, so a ranking exists for every scored frame.\<close>

lemma sort_values_spec_stable_sort: "sort_values df (spec_stable_sort df)"
proof -
  have "mset (foldr insert_desc df []) = mset df \<and>
        sorted_wrt (\<lambda>a b. ranks_before (Score a) (Score b)) (foldr insert_desc df [])"
    by (induction df) (simp_all add: mset_insert_desc sorted_insert_desc)
  then show ?thesis by (simp add: sort_values_def spec_stable_sort_def)
qed

end
